theory Spec2Isabelle
  imports Main "HOL-Library.Char_ord"
begin

section \<open>pytube.cipher: the signature decoder\<close>

text \<open>
  The module \<^verbatim>\<open>src/pytube/cipher.py\<close> finds the "transform functions" of a script
  asset by regular expressions, maps them to three Python functions on lists
  (\<^verbatim>\<open>reverse\<close>, \<^verbatim>\<open>splice\<close>, \<^verbatim>\<open>swap\<close>) and applies them in the order of the
  "transform plan" to the ciphered signature.

  A string is a sequence of code points below 256 (\<^typ>\<open>string\<close>, one \<^typ>\<open>char\<close> for one
  character of a Python 3 \<^verbatim>\<open>str\<close>), Python's integers are \<^typ>\<open>int\<close>, and every exception
  is a value of \<open>error\<close>, returned as \<open>Inl\<close>.
\<close>

subsection \<open>Exceptions\<close>

text \<open>
  \<open>RegexMatchError\<close> is what \<^verbatim>\<open>map_functions\<close> raises, with its two arguments.
  \<open>ZeroDivisionError\<close>, \<open>KeyError\<close>, \<open>ValueError\<close>
  and \<open>IndexError\<close> are Python's own exceptions (\<^verbatim>\<open>b % len(arr)\<close>, \<^verbatim>\<open>tmap[name]\<close>,
  unpacking a sequence of the wrong length, \<^verbatim>\<open>tplan[0]\<close> and a group that the pattern
  does not have).
  \<open>PatternNotFound\<close> and \<open>MalformedCall\<close> are the failures of the helper
  \<^verbatim>\<open>regex_search\<close>, named as the specification names them (see \<open>regex_search\<close> below).
\<close>

datatype error =
    RegexMatchError string string
  | PatternNotFound string
  | MalformedCall string
  | ZeroDivisionError
  | KeyError string
  | ValueError
  | IndexError

subsection \<open>Python slices\<close>

text \<open>
  \<^verbatim>\<open>arr[i:j]\<close>, \<^verbatim>\<open>arr[:j]\<close> and \<^verbatim>\<open>arr[i:]\<close> never raise: a negative bound counts from
  the end, and every bound is clamped to \<open>0 .. len(arr)\<close>.
\<close>

definition slice_index :: "nat \<Rightarrow> int \<Rightarrow> nat" where
  "slice_index n i = (if i < 0 then nat (int n + i) else min n (nat i))"

definition slice_to :: "'a list \<Rightarrow> int \<Rightarrow> 'a list" where
  "slice_to arr j = take (slice_index (length arr) j) arr"

definition slice_from :: "'a list \<Rightarrow> int \<Rightarrow> 'a list" where
  "slice_from arr i = drop (slice_index (length arr) i) arr"

definition slice :: "'a list \<Rightarrow> int \<Rightarrow> int \<Rightarrow> 'a list" where
  "slice arr i j =
     take (slice_index (length arr) j - slice_index (length arr) i)
          (drop (slice_index (length arr) i) arr)"

subsection \<open>The three transform functions\<close>

text \<open>\<^verbatim>\<open>def reverse(arr, b): return arr[::-1]\<close>\<close>

definition reverse :: "'a list \<Rightarrow> int \<Rightarrow> 'a list" where
  "reverse arr b = rev arr"

text \<open>\<^verbatim>\<open>def splice(arr, b): return arr[:b] + arr[b * 2:]\<close>\<close>

definition splice :: "'a list \<Rightarrow> int \<Rightarrow> 'a list" where
  "splice arr b = slice_to arr b @ slice_from arr (b * 2)"

text \<open>
  \<^verbatim>\<open>def swap(arr, b):
      r = b % len(arr)
      return list(chain([arr[r]], arr[1:r], [arr[0]], arr[r + 1:]))\<close>

  \<^verbatim>\<open>b % len(arr)\<close> raises \<^verbatim>\<open>ZeroDivisionError\<close> on the empty list. Otherwise
  \<open>0 \<le> r < len(arr)\<close> (Python's \<^verbatim>\<open>%\<close> takes the sign of the divisor, as \<open>mod\<close> does),
  so \<^verbatim>\<open>arr[r]\<close> and \<^verbatim>\<open>arr[0]\<close> are in range.
\<close>

definition swap :: "'a list \<Rightarrow> int \<Rightarrow> error + 'a list" where
  "swap arr b =
     (if length arr = 0 then Inl ZeroDivisionError
      else let r = b mod int (length arr)
           in Inr ([arr ! nat r] @ slice arr 1 r @ [arr ! 0] @ slice_from arr (r + 1)))"

text \<open>Sequencing of two steps that may raise.\<close>

definition and_then :: "error + 'a \<Rightarrow> ('a \<Rightarrow> error + 'b) \<Rightarrow> error + 'b" where
  "and_then m f = (case m of Inl e \<Rightarrow> Inl e | Inr x \<Rightarrow> f x)"

subsection \<open>Regular expressions\<close>

text \<open>
  The patterns of the module use a small part of Python's \<^verbatim>\<open>re\<close>: literal characters,
  \<^verbatim>\<open>.\<close>, \<^verbatim>\<open>\w\<close>, \<^verbatim>\<open>\d\<close>, \<^verbatim>\<open>\s\<close>, a bracketed set of characters and ranges, each with
  at most one of the quantifiers \<^verbatim>\<open>?\<close>, \<^verbatim>\<open>*\<close>, \<^verbatim>\<open>+\<close>, \<^verbatim>\<open>*?\<close>, and capturing groups around one
  quantified atom. A pattern is the list of its items.

  The patterns are \<^verbatim>\<open>str\<close> patterns, so the character classes are the Unicode ones of
  Python 3, here on the code points below 256:
  \<^item> \<^verbatim>\<open>\w\<close> is \<^verbatim>\<open>[a-zA-Z0-9_]\<close> and the other characters that \<^verbatim>\<open>str.isalnum\<close> accepts:
    \<^verbatim>\<open>0xAA\<close>, \<^verbatim>\<open>0xB2\<close>, \<^verbatim>\<open>0xB3\<close>, \<^verbatim>\<open>0xB5\<close>, \<^verbatim>\<open>0xB9\<close>, \<^verbatim>\<open>0xBA\<close>, \<^verbatim>\<open>0xBC\<close> to \<^verbatim>\<open>0xBE\<close>,
    \<^verbatim>\<open>0xC0\<close> to \<^verbatim>\<open>0xD6\<close>, \<^verbatim>\<open>0xD8\<close> to \<^verbatim>\<open>0xF6\<close> and \<^verbatim>\<open>0xF8\<close> to \<^verbatim>\<open>0xFF\<close>;
  \<^item> \<^verbatim>\<open>\d\<close> is \<^verbatim>\<open>[0-9]\<close>, the only decimal digits below 256;
  \<^item> \<^verbatim>\<open>\s\<close> is what \<^verbatim>\<open>str.isspace\<close> accepts: \<^verbatim>\<open>0x09\<close> to \<^verbatim>\<open>0x0D\<close>, \<^verbatim>\<open>0x1C\<close> to \<^verbatim>\<open>0x20\<close>,
    \<^verbatim>\<open>0x85\<close> and \<^verbatim>\<open>0xA0\<close>;
  \<^item> \<^verbatim>\<open>.\<close> is any character but the newline \<^verbatim>\<open>0x0A\<close>, and any character under
    \<^verbatim>\<open>re.DOTALL\<close>.
\<close>

definition in_range :: "char \<Rightarrow> char \<Rightarrow> char \<Rightarrow> bool" where
  "in_range lo hi c = ((of_char lo :: nat) \<le> of_char c \<and> (of_char c :: nat) \<le> of_char hi)"

definition is_word :: "char \<Rightarrow> bool" where
  "is_word c = (in_range CHR ''a'' CHR ''z'' c \<or> in_range CHR ''A'' CHR ''Z'' c
                \<or> in_range CHR ''0'' CHR ''9'' c \<or> c = CHR ''_''
                \<or> c = CHR 0xAA \<or> in_range (CHR 0xB2) (CHR 0xB3) c \<or> c = CHR 0xB5
                \<or> in_range (CHR 0xB9) (CHR 0xBA) c \<or> in_range (CHR 0xBC) (CHR 0xBE) c
                \<or> in_range (CHR 0xC0) (CHR 0xD6) c \<or> in_range (CHR 0xD8) (CHR 0xF6) c
                \<or> in_range (CHR 0xF8) (CHR 0xFF) c)"

definition is_digit :: "char \<Rightarrow> bool" where
  "is_digit c = in_range CHR ''0'' CHR ''9'' c"

definition is_space :: "char \<Rightarrow> bool" where
  "is_space c = (in_range (CHR 0x09) (CHR 0x0D) c \<or> in_range (CHR 0x1C) (CHR 0x20) c
                 \<or> c = CHR 0x85 \<or> c = CHR 0xA0)"

datatype atom = Lit char | Dot | DotAll | Word | Digit | Space | OneOf "(char \<times> char) list"

fun atom_ok :: "atom \<Rightarrow> char \<Rightarrow> bool" where
  "atom_ok (Lit a) c = (c = a)"
| "atom_ok Dot c = (c \<noteq> CHR 0x0A)"
| "atom_ok DotAll c = True"
| "atom_ok Word c = is_word c"
| "atom_ok Digit c = is_digit c"
| "atom_ok Space c = is_space c"
| "atom_ok (OneOf rs) c = list_ex (\<lambda>(lo, hi). in_range lo hi c) rs"

datatype quant = One | Opt | Star | Plus | LazyStar

text \<open>\<open>Tok a q\<close> is the atom \<open>a\<close> under the quantifier \<open>q\<close>; \<open>Grp a q\<close> is the same in a
  capturing group.\<close>

datatype item = Tok atom quant | Grp atom quant

fun item_atom :: "item \<Rightarrow> atom" where
  "item_atom (Tok a q) = a"
| "item_atom (Grp a q) = a"

fun item_quant :: "item \<Rightarrow> quant" where
  "item_quant (Tok a q) = q"
| "item_quant (Grp a q) = q"

fun captured :: "item \<Rightarrow> string \<Rightarrow> string list" where
  "captured (Tok a q) w = []"
| "captured (Grp a q) w = [w]"

text \<open>
  The numbers of repetitions that a quantifier tries, in the order in which the
  backtracking matcher tries them, when at most \<open>n\<close> characters in a row satisfy the atom:
  a greedy quantifier starts from the most, the lazy one from none.
\<close>

fun cands :: "quant \<Rightarrow> nat \<Rightarrow> nat list" where
  "cands One n = (if 1 \<le> n then [1] else [])"
| "cands Opt n = (if 1 \<le> n then [1, 0] else [0])"
| "cands Star n = rev [0..<Suc n]"
| "cands Plus n = rev [1..<Suc n]"
| "cands LazyStar n = [0..<Suc n]"

fun first_some :: "('a \<Rightarrow> 'b option) \<Rightarrow> 'a list \<Rightarrow> 'b option" where
  "first_some f [] = None"
| "first_some f (x # xs) = (case f x of Some y \<Rightarrow> Some y | None \<Rightarrow> first_some f xs)"

text \<open>
  \<open>rmatch pattern s\<close> matches the pattern at the start of \<open>s\<close> (\<^verbatim>\<open>re.match\<close>) and returns
  the captured groups of the first successful way through the alternatives.
\<close>

primrec rmatch :: "item list \<Rightarrow> string \<Rightarrow> string list option" where
  "rmatch [] s = Some []"
| "rmatch (it # rest) s =
     first_some
       (\<lambda>k. case rmatch rest (drop k s) of
              None \<Rightarrow> None
            | Some groups \<Rightarrow> Some (captured it (take k s) @ groups))
       (cands (item_quant it) (length (takeWhile (atom_ok (item_atom it)) s)))"

text \<open>\<^verbatim>\<open>re.search\<close>: the first position of the string, from the left, where the pattern
  matches.\<close>

fun re_search :: "item list \<Rightarrow> string \<Rightarrow> string list option" where
  "re_search pattern [] = rmatch pattern []"
| "re_search pattern (c # cs) =
     (case rmatch pattern (c # cs) of
        Some groups \<Rightarrow> Some groups
      | None \<Rightarrow> re_search pattern cs)"

text \<open>A literal text as a pattern; this is also \<^verbatim>\<open>re.escape\<close> of that text.\<close>

definition lits :: "string \<Rightarrow> item list" where
  "lits w = map (\<lambda>c. Tok (Lit c) One) w"

text \<open>
  Modelled from the spec: \<^verbatim>\<open>pytube.helpers.regex_search\<close> is imported by the module and is
  not among the sources. The specification says of each extractor that uses it that it
  returns what the pattern captures and fails with \<^verbatim>\<open>PatternNotFound(stage)\<close>, or with
  \<^verbatim>\<open>MalformedCall(call)\<close> in the call parser, when the pattern is absent. The failure is
  the first argument here; the result is the tuple of the groups (\<^verbatim>\<open>groups=True\<close>), and
  \<open>group\<close> takes one of them (\<^verbatim>\<open>group=1\<close>).
\<close>

definition regex_search :: "error \<Rightarrow> item list \<Rightarrow> string \<Rightarrow> error + string list" where
  "regex_search failure pattern s =
     (case re_search pattern s of None \<Rightarrow> Inl failure | Some groups \<Rightarrow> Inr groups)"

fun group :: "nat \<Rightarrow> string list \<Rightarrow> error + string" where
  "group n groups =
     (if 1 \<le> n \<and> n \<le> length groups then Inr (groups ! (n - 1)) else Inl IndexError)"

subsection \<open>String methods\<close>

text \<open>
  \<^verbatim>\<open>s.split(sep)\<close> for a non-empty separator: the pieces between the occurrences of the
  separator, found from the left without overlap. The result always has a piece, the
  whole string when the separator does not occur. \<open>cur\<close> holds the current piece,
  reversed.
\<close>

function split_from :: "string \<Rightarrow> string \<Rightarrow> string \<Rightarrow> string list" where
  "split_from sep cur [] = [rev cur]"
| "split_from sep cur (c # cs) =
     (if sep \<noteq> [] \<and> take (length sep) (c # cs) = sep
      then rev cur # split_from sep [] (drop (length sep) (c # cs))
      else split_from sep (c # cur) cs)"
  by pat_completeness auto
termination
  by (relation "measure (\<lambda>(sep, cur, s). length s)") auto

definition split :: "string \<Rightarrow> string \<Rightarrow> string list" where
  "split sep s = split_from sep [] s"

text \<open>\<^verbatim>\<open>sep.join(parts)\<close>\<close>

fun join :: "string \<Rightarrow> string list \<Rightarrow> string" where
  "join sep [] = []"
| "join sep [x] = x"
| "join sep (x # y # ys) = x @ sep @ join sep (y # ys)"

text \<open>\<^verbatim>\<open>s.split(sep, 1)\<close> for a separator of one character: at most one cut, at the first
  occurrence.\<close>

definition split_once :: "char \<Rightarrow> string \<Rightarrow> string list" where
  "split_once sep s =
     (case dropWhile (\<lambda>c. c \<noteq> sep) s of
        [] \<Rightarrow> [s]
      | _ # rest \<Rightarrow> [takeWhile (\<lambda>c. c \<noteq> sep) s, rest])"

text \<open>\<^verbatim>\<open>s.replace('\n', ' ')\<close>\<close>

definition replace_newlines :: "string \<Rightarrow> string" where
  "replace_newlines s = map (\<lambda>c. if c = CHR 0x0A then CHR '' '' else c) s"

text \<open>\<^verbatim>\<open>int(argument)\<close> on a string of decimal digits, which is what group 2 of the call
  pattern (\<^verbatim>\<open>\d+\<close>) always is.\<close>

definition int_of_digits :: "string \<Rightarrow> int" where
  "int_of_digits s = foldl (\<lambda>n c. 10 * n + (int (of_char c) - 48)) 0 s"

subsection \<open>The extractors\<close>

text \<open>
  \<^verbatim>\<open>pattern = r'"signature",\s?([a-zA-Z0-9$]+)\('\<close>
  \<^verbatim>\<open>return regex_search(pattern, js, group=1)\<close>
\<close>

definition initial_function_pattern :: "item list" where
  "initial_function_pattern =
     lits (CHR 0x22 # ''signature'' @ [CHR 0x22, CHR '','']) @
     [Tok Space Opt,
      Grp (OneOf [(CHR ''a'', CHR ''z''), (CHR ''A'', CHR ''Z''), (CHR ''0'', CHR ''9''),
                  (CHR ''$'', CHR ''$'')]) Plus] @
     lits ''(''"

definition get_initial_function_name :: "string \<Rightarrow> error + string" where
  "get_initial_function_name js =
     and_then (regex_search (PatternNotFound ''entry_point'') initial_function_pattern js)
       (group 1)"

text \<open>
  \<^verbatim>\<open>name = re.escape(get_initial_function_name(js))\<close>
  \<^verbatim>\<open>pattern = r'%s=function\(\w\){[a-z=\.\(\"\)]*;(.*);(?:.+)}' % name\<close>
  \<^verbatim>\<open>return regex_search(pattern, js, group=1).split(';')\<close>
\<close>

definition transform_plan_pattern :: "string \<Rightarrow> item list" where
  "transform_plan_pattern name =
     lits name @ lits ''=function('' @ [Tok Word One] @ lits ''){'' @
     [Tok (OneOf [(CHR ''a'', CHR ''z''), (CHR ''='', CHR ''=''), (CHR ''.'', CHR ''.''),
                  (CHR ''('', CHR ''(''), (CHR 0x22, CHR 0x22), (CHR '')'', CHR '')'')]) Star] @
     lits '';'' @ [Grp Dot Star] @ lits '';'' @ [Tok Dot Plus] @ lits ''}''"

definition get_transform_plan :: "string \<Rightarrow> error + string list" where
  "get_transform_plan js =
     and_then (get_initial_function_name js) (\<lambda>name.
     and_then (regex_search (PatternNotFound ''transform_plan'') (transform_plan_pattern name) js)
       (\<lambda>groups.
     and_then (group 1 groups) (\<lambda>g.
     Inr (split '';'' g))))"

text \<open>
  \<^verbatim>\<open>pattern = r'var %s={(.*?)};' % re.escape(var)\<close>
  \<^verbatim>\<open>return (regex_search(pattern, js, group=1, flags=re.DOTALL)\<close>
  \<^verbatim>\<open>        .replace('\n', ' ').split(', '))\<close>

  The specification names no stage for this extractor; the failure carries the name of
  the function.
\<close>

definition transform_object_pattern :: "string \<Rightarrow> item list" where
  "transform_object_pattern var =
     lits ''var '' @ lits var @ lits ''={'' @ [Grp DotAll LazyStar] @ lits ''};''"

definition get_transform_object :: "string \<Rightarrow> string \<Rightarrow> error + string list" where
  "get_transform_object js var =
     and_then (regex_search (PatternNotFound ''transform_object'')
                 (transform_object_pattern var) js) (\<lambda>groups.
     and_then (group 1 groups) (\<lambda>g.
     Inr (split '', '' (replace_newlines g))))"

subsection \<open>Mapping the definitions to the transform functions\<close>

text \<open>A reference to one of the three functions, as the values of \<^verbatim>\<open>mapper\<close> are, and its
  call \<^verbatim>\<open>fn(signature, b)\<close>.\<close>

datatype transform = Reverse | Splice | Swap

fun call :: "transform \<Rightarrow> 'a list \<Rightarrow> int \<Rightarrow> error + 'a list" where
  "call Reverse arr b = Inr (reverse arr b)"
| "call Splice arr b = Inr (splice arr b)"
| "call Swap arr b = swap arr b"

text \<open>
  \<^verbatim>\<open>mapper = (\<close>
  \<^verbatim>\<open>    ('{\w\.reverse\(\)}', reverse),\<close>
  \<^verbatim>\<open>    ('{\w\.splice\(0,\w\)}', splice),\<close>
  \<^verbatim>\<open>    ('{var\s\w=\w\[0\];\w\[0\]=\w\[\w\%\w.length\];\w\[\w\]=\w}', swap),\<close>
  \<^verbatim>\<open>)\<close>

  In the third pattern the dot before \<^verbatim>\<open>length\<close> is not escaped: it matches any character
  but the newline.
\<close>

definition reverse_pattern :: "item list" where
  "reverse_pattern = lits ''{'' @ [Tok Word One] @ lits ''.reverse()}''"

definition splice_pattern :: "item list" where
  "splice_pattern = lits ''{'' @ [Tok Word One] @ lits ''.splice(0,'' @ [Tok Word One] @ lits '')}''"

definition swap_pattern :: "item list" where
  "swap_pattern =
     lits ''{var'' @ [Tok Space One, Tok Word One] @ lits ''='' @ [Tok Word One] @ lits ''[0];'' @
     [Tok Word One] @ lits ''[0]='' @ [Tok Word One] @ lits ''['' @ [Tok Word One] @ lits ''%'' @
     [Tok Word One, Tok Dot One] @ lits ''length];'' @
     [Tok Word One] @ lits ''['' @ [Tok Word One] @ lits '']='' @ [Tok Word One] @ lits ''}''"

definition mapper :: "(item list \<times> transform) list" where
  "mapper = [(reverse_pattern, Reverse), (splice_pattern, Splice), (swap_pattern, Swap)]"

text \<open>
  \<^verbatim>\<open>for pattern, fn in mapper:\<close>
  \<^verbatim>\<open>    if re.search(pattern, js_func):\<close>
  \<^verbatim>\<open>        return fn\<close>
  \<^verbatim>\<open>raise RegexMatchError('could not find python equivalent function for: ', js_func)\<close>
\<close>

fun first_matching :: "(item list \<times> transform) list \<Rightarrow> string \<Rightarrow> transform option" where
  "first_matching [] js_func = None"
| "first_matching ((pattern, fn) # more) js_func =
     (if re_search pattern js_func \<noteq> None then Some fn else first_matching more js_func)"

definition map_functions :: "string \<Rightarrow> error + transform" where
  "map_functions js_func =
     (case first_matching mapper js_func of
        Some fn \<Rightarrow> Inr fn
      | None \<Rightarrow> Inl (RegexMatchError ''could not find python equivalent function for: '' js_func))"

text \<open>
  \<^verbatim>\<open>mapper = {}\<close>
  \<^verbatim>\<open>for obj in transform_object:\<close>
  \<^verbatim>\<open>    name, function = obj.split(':', 1)\<close>
  \<^verbatim>\<open>    fn = map_functions(function)\<close>
  \<^verbatim>\<open>    mapper[name] = fn\<close>
  \<^verbatim>\<open>return mapper\<close>

  The decorator \<^verbatim>\<open>memoize\<close> is not among the sources; the functions it wraps are pure, and
  the model is the function without the cache.
\<close>

fun build_map :: "string list \<Rightarrow> (string \<rightharpoonup> transform) \<Rightarrow> error + (string \<rightharpoonup> transform)" where
  "build_map [] m = Inr m"
| "build_map (obj # objs) m =
     (case split_once CHR '':'' obj of
        [name, function] \<Rightarrow>
          and_then (map_functions function) (\<lambda>fn. build_map objs (m(name \<mapsto> fn)))
      | _ \<Rightarrow> Inl ValueError)"

definition get_transform_map :: "string \<Rightarrow> string \<Rightarrow> error + (string \<rightharpoonup> transform)" where
  "get_transform_map js var =
     and_then (get_transform_object js var) (\<lambda>transform_object.
     build_map transform_object Map.empty)"

subsection \<open>Decoding\<close>

text \<open>
  \<^verbatim>\<open>pattern = r'\w+\.(\w+)\(\w,(\d+)\)'\<close>
  \<^verbatim>\<open>return regex_search(pattern, js_func, groups=True)\<close>
\<close>

definition parse_function_pattern :: "item list" where
  "parse_function_pattern =
     [Tok Word Plus] @ lits ''.'' @ [Grp Word Plus] @ lits ''('' @ [Tok Word One] @ lits '','' @
     [Grp Digit Plus] @ lits '')''"

definition parse_function :: "string \<Rightarrow> error + string list" where
  "parse_function js_func = regex_search (MalformedCall js_func) parse_function_pattern js_func"

text \<open>
  \<^verbatim>\<open>for js_func in tplan:\<close>
  \<^verbatim>\<open>    name, argument = parse_function(js_func)\<close>
  \<^verbatim>\<open>    signature = tmap[name](signature, int(argument))\<close>

  The call to the logger between two steps changes nothing and is left out.
\<close>

fun apply_plan :: "(string \<rightharpoonup> transform) \<Rightarrow> string list \<Rightarrow> 'a list \<Rightarrow> error + 'a list" where
  "apply_plan tmap [] signature = Inr signature"
| "apply_plan tmap (js_func # more) signature =
     and_then (parse_function js_func) (\<lambda>groups.
       case groups of
         [name, argument] \<Rightarrow>
           (case tmap name of
              None \<Rightarrow> Inl (KeyError name)
            | Some fn \<Rightarrow>
                and_then (call fn signature (int_of_digits argument)) (apply_plan tmap more))
       | _ \<Rightarrow> Inl ValueError)"

text \<open>
  \<^verbatim>\<open>tplan = get_transform_plan(js)\<close>
  \<^verbatim>\<open>var, _ = tplan[0].split('.')\<close>
  \<^verbatim>\<open>tmap = get_transform_map(js, var)\<close>
  \<^verbatim>\<open>signature = [s for s in ciphered_signature]\<close>
  \<^verbatim>\<open>for js_func in tplan: ...\<close>
  \<^verbatim>\<open>return ''.join(signature)\<close>
\<close>

definition get_signature :: "string \<Rightarrow> string \<Rightarrow> error + string" where
  "get_signature js ciphered_signature =
     and_then (get_transform_plan js) (\<lambda>tplan.
       case tplan of
         [] \<Rightarrow> Inl IndexError
       | first # _ \<Rightarrow>
           (case split ''.'' first of
              [var, _] \<Rightarrow>
                and_then (get_transform_map js var) (\<lambda>tmap.
                apply_plan tmap tplan ciphered_signature)
            | _ \<Rightarrow> Inl ValueError))"

subsection \<open>The texts that a pattern matches\<close>

text \<open>
  What a pattern matches, said without the matcher: an item matches a run of characters
  that all satisfy its atom and whose length its quantifier allows, a pattern matches the
  concatenation of what its items match, and it occurs in a string when it matches a
  part of it. \<open>group_count\<close> is the number of capturing groups.
\<close>

fun quant_ok :: "quant \<Rightarrow> nat \<Rightarrow> bool" where
  "quant_ok One k = (k = 1)"
| "quant_ok Opt k = (k \<le> 1)"
| "quant_ok Star k = True"
| "quant_ok Plus k = (1 \<le> k)"
| "quant_ok LazyStar k = True"

definition item_matches :: "item \<Rightarrow> string \<Rightarrow> bool" where
  "item_matches it w =
     (list_all (atom_ok (item_atom it)) w \<and> quant_ok (item_quant it) (length w))"

fun seq_matches :: "item list \<Rightarrow> string \<Rightarrow> bool" where
  "seq_matches [] w = (w = [])"
| "seq_matches (it # rest) w =
     (\<exists>u v. w = u @ v \<and> item_matches it u \<and> seq_matches rest v)"

definition occurs :: "item list \<Rightarrow> string \<Rightarrow> bool" where
  "occurs pattern s = (\<exists>before w after. s = before @ w @ after \<and> seq_matches pattern w)"

text \<open>The same with the texts of the capturing groups: \<open>captures pattern s groups\<close> when
  the pattern matches a part of \<open>s\<close> in a way that gives the groups these texts.\<close>

fun seq_captures :: "item list \<Rightarrow> string \<Rightarrow> string list \<Rightarrow> bool" where
  "seq_captures [] w groups = (w = [] \<and> groups = [])"
| "seq_captures (it # rest) w groups =
     (\<exists>u v more. w = u @ v \<and> item_matches it u \<and> seq_captures rest v more \<and>
        groups = captured it u @ more)"

definition captures :: "item list \<Rightarrow> string \<Rightarrow> string list \<Rightarrow> bool" where
  "captures pattern s groups =
     (\<exists>before w after. s = before @ w @ after \<and> seq_captures pattern w groups)"

fun group_count :: "item list \<Rightarrow> nat" where
  "group_count [] = 0"
| "group_count (Tok a q # rest) = group_count rest"
| "group_count (Grp a q # rest) = Suc (group_count rest)"

subsection \<open>The entry-point marker, as the specification describes it\<close>

text \<open>
  The specification (4.1): the marker is a literal marker string immediately followed by
  a call to an identifier consisting of letters, digits and \<^verbatim>\<open>$\<close>. The literal string
  is \<^verbatim>\<open>"signature",\<close>, as in \<^verbatim>\<open>c&&d.set("signature", EE(c));\<close>, with at most one white space
  character (\<^verbatim>\<open>\s\<close>) before the identifier; the call is the identifier followed by \<^verbatim>\<open>(\<close>.
\<close>

definition is_ident_char :: "char \<Rightarrow> bool" where
  "is_ident_char c = (in_range CHR ''a'' CHR ''z'' c \<or> in_range CHR ''A'' CHR ''Z'' c
                      \<or> in_range CHR ''0'' CHR ''9'' c \<or> c = CHR ''$'')"

definition signature_marker :: string where
  "signature_marker = CHR 0x22 # ''signature'' @ [CHR 0x22, CHR '','']"

definition has_entry_marker :: "string \<Rightarrow> bool" where
  "has_entry_marker js =
     (\<exists>before sp name after.
        js = before @ signature_marker @ sp @ name @ ''('' @ after \<and>
        (sp = [] \<or> (\<exists>c. sp = [c] \<and> is_space c)) \<and>
        name \<noteq> [] \<and> list_all is_ident_char name)"

text \<open>The characters of the set \<^verbatim>\<open>[a-z=\.\(\"\)]\<close> in the pattern of the transform plan.\<close>

definition plan_prefix_char :: "char \<Rightarrow> bool" where
  "plan_prefix_char c = (in_range CHR ''a'' CHR ''z'' c \<or> c = CHR ''='' \<or> c = CHR ''.''
     \<or> c = CHR ''('' \<or> c = CHR 0x22 \<or> c = CHR '')'')"

subsection \<open>Script assets\<close>

text \<open>
  A script asset with the entry point \<^verbatim>\<open>EE\<close>, the plan \<^verbatim>\<open>DE.AJ(a,0);DE.VR(a,2)\<close> and the
  container \<^verbatim>\<open>DE\<close>, which defines \<^verbatim>\<open>AJ\<close> with a reversal body and \<^verbatim>\<open>VR\<close> with a splice
  body:

  \<^verbatim>\<open>c&&d.set("signature", EE(c));\<close>
  \<^verbatim>\<open>EE=function(a){a=a.split("");DE.AJ(a,0);DE.VR(a,2);return a.join("")};\<close>
  \<^verbatim>\<open>var DE={AJ:function(a){a.reverse()},\<close>
  \<^verbatim>\<open>VR:function(a,b){a.splice(0,b)}};\<close>

  and the same with the plan \<^verbatim>\<open>DE.AJ(a,0);DE.kT(a,3)\<close>, where \<^verbatim>\<open>kT\<close> has the swap body.
  The third has the marker and an entry point whose body has nothing between its two
  semicolons: \<^verbatim>\<open>"signature",E(E=function(a){;;x}\<close>.
\<close>

definition script_head :: string where
  "script_head =
     ''c&&d.set('' @ [CHR 0x22] @ ''signature'' @ [CHR 0x22] @ '', EE(c));'' @ [CHR 0x0A]"

definition script_reverse_splice :: string where
  "script_reverse_splice = script_head @
     ''EE=function(a){a=a.split('' @ [CHR 0x22, CHR 0x22] @
     '');DE.AJ(a,0);DE.VR(a,2);return a.join('' @ [CHR 0x22, CHR 0x22] @ '')};'' @ [CHR 0x0A] @
     ''var DE={AJ:function(a){a.reverse()},'' @ [CHR 0x0A] @
     ''VR:function(a,b){a.splice(0,b)}};''"


definition script_empty_statement :: string where
  "script_empty_statement = CHR 0x22 # ''signature'' @ [CHR 0x22] @ '',E(E=function(a){;;x}''"

section \<open>The transform functions\<close>

subsection \<open>Slices with bounds in range\<close>

lemma slice_to_nonneg: "0 \<le> j \<Longrightarrow> slice_to arr j = take (nat j) arr"
  by (simp add: slice_to_def slice_index_def min_def)

lemma slice_from_nonneg: "0 \<le> i \<Longrightarrow> slice_from arr i = drop (nat i) arr"
  by (simp add: slice_from_def slice_index_def min_def)

lemma slice_nonneg:
  "0 \<le> i \<Longrightarrow> i \<le> j \<Longrightarrow> j \<le> int (length arr) \<Longrightarrow>
   slice arr i j = take (nat j - nat i) (drop (nat i) arr)"
  by (simp add: slice_def slice_index_def min_def)

subsection \<open>splice\<close>

text \<open>For a non-negative \<open>b\<close> the function keeps the first \<open>b\<close> elements and the elements from
  index \<open>2 * b\<close> on: it removes the indices \<open>b \<le> i < 2 * b\<close>, not the first \<open>b\<close>.\<close>

lemma splice_nonneg:
  "0 \<le> b \<Longrightarrow> splice arr b = take (nat b) arr @ drop (2 * nat b) arr"
  by (simp add: splice_def slice_to_nonneg slice_from_nonneg nat_mult_distrib mult.commute)

lemma splice_zero: "splice arr 0 = arr"
  by (simp add: splice_def slice_to_def slice_from_def slice_index_def)

text \<open>
  Claim C1: splice drops a prefix; for every sequence \<open>a\<close> and non-negative \<open>b\<close> it returns
  \<open>a\<close> without its first \<open>b\<close> elements, and \<^verbatim>\<open>splice([1,2,3,4], 2)\<close> is \<^verbatim>\<open>[3,4]\<close>.

  The function returns \<^verbatim>\<open>arr[:b] + arr[b * 2:]\<close>. On the example of the claim that is the
  first two elements, \<^verbatim>\<open>[1,2]\<close>: the prefix is kept, not dropped.
\<close>

theorem splice_keeps_prefix: "splice [1, 2, 3, 4 :: int] 2 = [1, 2]"
  by (simp add: splice_nonneg)

text \<open>
  Claim C6: cropping nothing after a crop changes nothing,
  \<^verbatim>\<open>splice(splice(a, b), 0) == splice(a, b)\<close>, since \<^verbatim>\<open>splice\<close> with argument \<open>0\<close> returns
  its input. This holds for every \<open>b\<close>, negative or not.
\<close>

theorem splice_zero_after_splice: "splice (splice a b) 0 = splice a b \<and> splice a 0 = a"
  by (simp add: splice_zero)

subsection \<open>reverse\<close>

text \<open>
  Claim C5: \<^verbatim>\<open>reverse\<close> returns its input in inverted order, whatever its second argument
  is, and applying it twice gives the input back.
\<close>

theorem reverse_involution: "reverse (reverse a b) c = a \<and> reverse a b = rev a"
  by (simp add: reverse_def)

subsection \<open>swap\<close>

lemma swap_parts:
  assumes "0 < r" and "r < length arr"
  shows "[arr ! r] @ take (r - 1) (drop 1 arr) @ [arr ! 0] @ drop (r + 1) arr
         = arr[0 := arr ! r, r := arr ! 0]"
proof (rule nth_equalityI)
  show "length ([arr ! r] @ take (r - 1) (drop 1 arr) @ [arr ! 0] @ drop (r + 1) arr)
        = length (arr[0 := arr ! r, r := arr ! 0])"
    using assms by simp
next
  fix i
  assume "i < length ([arr ! r] @ take (r - 1) (drop 1 arr) @ [arr ! 0] @ drop (r + 1) arr)"
  then have i: "i < length arr" using assms by simp
  have n: "0 < length arr" using assms by linarith
  consider "i = 0" | "0 < i" "i < r" | "i = r" | "r < i" by linarith
  then show "([arr ! r] @ take (r - 1) (drop 1 arr) @ [arr ! 0] @ drop (r + 1) arr) ! i
             = arr[0 := arr ! r, r := arr ! 0] ! i"
  proof cases
    case 1
    then show ?thesis using assms n by (simp add: nth_list_update)
  next
    case 2
    then show ?thesis using assms i by (auto simp add: nth_append nth_Cons' nth_list_update)
  next
    case 3
    then show ?thesis using assms i
      by (auto simp add: nth_append nth_Cons' nth_list_update min_def)
  next
    case 4
    then show ?thesis using assms i
      by (auto simp add: nth_append nth_Cons' nth_list_update min_def)
  qed
qed

lemma mod_length_pos:
  assumes "arr \<noteq> []" and "b mod int (length arr) \<noteq> 0"
  shows "0 < nat (b mod int (length arr))" and "nat (b mod int (length arr)) < length arr"
proof -
  have n: "0 < int (length arr)" using assms by simp
  have "0 \<le> b mod int (length arr)" using n by (rule pos_mod_sign)
  then have p: "0 < b mod int (length arr)" using assms(2) by linarith
  then show "0 < nat (b mod int (length arr))" by simp
  have "b mod int (length arr) < int (length arr)" using n by (rule pos_mod_bound)
  with p show "nat (b mod int (length arr)) < length arr" by linarith
qed

text \<open>When \<open>r = b mod len(arr)\<close> is not \<open>0\<close>, the result is the input with the elements at
  \<open>0\<close> and \<open>r\<close> exchanged.\<close>

lemma swap_pos:
  assumes "arr \<noteq> []" and "b mod int (length arr) \<noteq> 0"
  shows "swap arr b =
         Inr (arr[0 := arr ! nat (b mod int (length arr)),
                  nat (b mod int (length arr)) := arr ! 0])"
proof -
  let ?r = "b mod int (length arr)"
  have a: "0 < nat ?r" "nat ?r < length arr" using assms by (rule mod_length_pos)+
  have s1: "slice arr 1 ?r = take (nat ?r - 1) (drop 1 arr)"
    using a by (simp add: slice_def slice_index_def min_def)
  have s2: "slice_from arr (?r + 1) = drop (nat ?r + 1) arr"
    using a by (simp add: slice_from_def slice_index_def min_def nat_add_distrib)
  show ?thesis
    using swap_parts [OF a] assms(1) by (simp add: swap_def Let_def s1 s2)
qed

text \<open>When \<open>r\<close> is \<open>0\<close>, \<^verbatim>\<open>arr[1:0]\<close> is empty and \<^verbatim>\<open>arr[1:]\<close> follows the two copies of
  \<^verbatim>\<open>arr[0]\<close>: the result is one element longer than the input.\<close>

lemma swap_zero:
  assumes "arr \<noteq> []" and "b mod int (length arr) = 0"
  shows "swap arr b = Inr (hd arr # arr)"
  using assms by (cases arr) (simp_all add: swap_def slice_def slice_from_def slice_index_def)

text \<open>
  Claim C3: for a non-empty sequence \<open>a\<close> and \<open>r = b mod len(a)\<close>, \<^verbatim>\<open>swap\<close> returns \<open>a\<close> with
  the elements at \<open>0\<close> and \<open>r\<close> exchanged, and \<open>a\<close> unchanged when \<open>r = 0\<close>.

  The first part is \<open>swap_pos\<close>. When \<open>r = 0\<close> the function does not return \<open>a\<close>: it
  returns \<open>a\<close> with its first element twice (\<open>swap_zero\<close>).
\<close>

theorem swap_zero_duplicates_head: "swap [1, 2, 3, 4 :: int] 0 = Inr [1, 1, 2, 3, 4]"
  by (simp add: swap_zero)

text \<open>
  Claim C4: \<^verbatim>\<open>swap(swap(a, b), b) == a\<close> for every sequence \<open>a\<close> and non-negative \<open>b\<close>.

  On the empty sequence \<^verbatim>\<open>swap\<close> raises, so the double application does not return the
  input.
\<close>

theorem swap_twice_empty_raises:
  "\<not> (and_then (swap ([] :: int list) 0) (\<lambda>ys. swap ys 0) = Inr [])"
  by (simp add: swap_def and_then_def)

text \<open>
  Claim C4, amended: for every non-empty sequence \<open>a\<close> and every \<open>b\<close> with
  \<open>b mod len(a) \<noteq> 0\<close>, \<^verbatim>\<open>swap(swap(a, b), b) == a\<close>.
\<close>

theorem swap_twice:
  assumes "arr \<noteq> []" and "b mod int (length arr) \<noteq> 0"
  shows "and_then (swap arr b) (\<lambda>ys. swap ys b) = Inr arr"
proof -
  let ?r = "nat (b mod int (length arr))"
  let ?ys = "arr[0 := arr ! ?r, ?r := arr ! 0]"
  have a: "0 < ?r" "?r < length arr" using assms by (rule mod_length_pos)+
  have n: "0 < length arr" using assms by simp
  have 1: "swap arr b = Inr ?ys" using assms by (rule swap_pos)
  have 2: "swap ?ys b = Inr (?ys[0 := ?ys ! ?r, ?r := ?ys ! 0])"
    using swap_pos [of ?ys b] assms by simp
  have 3: "?ys[0 := ?ys ! ?r, ?r := ?ys ! 0] = arr"
  proof (rule nth_equalityI)
    show "length (?ys[0 := ?ys ! ?r, ?r := ?ys ! 0]) = length arr" by simp
  next
    fix i
    assume "i < length (?ys[0 := ?ys ! ?r, ?r := ?ys ! 0])"
    then have "i < length arr" by simp
    then show "?ys[0 := ?ys ! ?r, ?r := ?ys ! 0] ! i = arr ! i"
      using a n by (cases "i = 0"; cases "i = ?r") (simp_all add: nth_list_update)
  qed
  show ?thesis by (simp add: and_then_def 1 2 3)
qed

theorem swap_twice_witness:
  "[1, 2, 3, 4 :: int] \<noteq> [] \<and> 2 mod int (length [1, 2, 3, 4 :: int]) \<noteq> 0 \<and>
   and_then (swap [1, 2, 3, 4 :: int] 2) (\<lambda>ys. swap ys 2) = Inr [1, 2, 3, 4]"
  using swap_twice [of "[1, 2, 3, 4 :: int]" 2] by simp

section \<open>The matcher and the texts that a pattern matches\<close>

lemma set_cands: "set (cands q n) = {k. k \<le> n \<and> quant_ok q k}"
  by (cases q) auto

lemma first_some_None: "first_some f xs = None \<longleftrightarrow> list_all (\<lambda>x. f x = None) xs"
  by (induction xs) (auto split: option.splits)

lemma first_some_Some: "first_some f xs = Some y \<Longrightarrow> \<exists>x \<in> set xs. f x = Some y"
  by (induction xs) (auto split: option.splits)

lemma take_run: "k \<le> length (takeWhile P s) \<Longrightarrow> list_all P (take k s)"
  by (induction s arbitrary: k) (auto simp add: take_Cons' split: if_splits)

lemma run_prefix: "list_all P u \<Longrightarrow> length u \<le> length (takeWhile P (u @ v))"
  by (induction u) auto

text \<open>A successful match has consumed a text that the pattern matches.\<close>

lemma rmatch_sound:
  "rmatch pattern s = Some groups \<Longrightarrow> \<exists>w t. s = w @ t \<and> seq_matches pattern w"
proof (induction pattern arbitrary: s groups)
  case Nil
  then show ?case by simp
next
  case (Cons it rest)
  let ?n = "length (takeWhile (atom_ok (item_atom it)) s)"
  from Cons.prems obtain k where k: "k \<in> set (cands (item_quant it) ?n)"
    and r: "(case rmatch rest (drop k s) of None \<Rightarrow> None
             | Some groups \<Rightarrow> Some (captured it (take k s) @ groups)) = Some groups"
    by (auto dest: first_some_Some)
  from r obtain g where g: "rmatch rest (drop k s) = Some g" by (auto split: option.splits)
  from Cons.IH [OF g] obtain w t where wt: "drop k s = w @ t" "seq_matches rest w" by blast
  from k have kn: "k \<le> ?n" and q: "quant_ok (item_quant it) k" by (simp_all add: set_cands)
  have kl: "k \<le> length s" using kn by (meson le_trans length_takeWhile_le)
  have "item_matches it (take k s)"
    using take_run [OF kn] q kl by (simp add: item_matches_def min_def)
  moreover have "s = (take k s @ w) @ t" using wt(1) by (metis append.assoc append_take_drop_id)
  ultimately show ?case using wt(2) by (metis seq_matches.simps(2))
qed

text \<open>Backtracking loses nothing: where the pattern matches a prefix, the matcher succeeds.\<close>

lemma rmatch_complete: "seq_matches pattern w \<Longrightarrow> rmatch pattern (w @ t) \<noteq> None"
proof (induction pattern arbitrary: w)
  case Nil
  then show ?case by simp
next
  case (Cons it rest)
  from Cons.prems obtain u v where uv: "w = u @ v" "item_matches it u" "seq_matches rest v"
    by auto
  let ?s = "w @ t"
  let ?n = "length (takeWhile (atom_ok (item_atom it)) ?s)"
  have "length u \<le> ?n" using run_prefix [of "atom_ok (item_atom it)" u "v @ t"] uv
    by (simp add: item_matches_def)
  then have mem: "length u \<in> set (cands (item_quant it) ?n)"
    using uv(2) by (simp add: set_cands item_matches_def)
  have "rmatch rest (drop (length u) ?s) \<noteq> None"
    using Cons.IH [OF uv(3)] uv(1) by simp
  then have "(case rmatch rest (drop (length u) ?s) of None \<Rightarrow> None
             | Some groups \<Rightarrow> Some (captured it (take (length u) ?s) @ groups)) \<noteq> None"
    by (auto split: option.splits)
  with mem have "\<not> list_all (\<lambda>k. (case rmatch rest (drop k ?s) of None \<Rightarrow> None
             | Some groups \<Rightarrow> Some (captured it (take k ?s) @ groups)) = None)
           (cands (item_quant it) ?n)"
    by (auto simp add: list_all_iff)
  then show ?case by (simp add: first_some_None)
qed

lemma re_search_sound: "re_search pattern s = Some groups \<Longrightarrow> occurs pattern s"
proof (induction s)
  case Nil
  then show ?case using rmatch_sound [of pattern "[]" groups] by (auto simp add: occurs_def)
next
  case (Cons c cs)
  show ?case
  proof (cases "rmatch pattern (c # cs)")
    case None
    with Cons have "occurs pattern cs" by simp
    then obtain b w a where "cs = b @ w @ a" "seq_matches pattern w"
      by (auto simp add: occurs_def)
    then have "c # cs = (c # b) @ w @ a \<and> seq_matches pattern w" by simp
    then show ?thesis unfolding occurs_def by blast
  next
    case (Some g)
    from rmatch_sound [OF this] obtain w t where "c # cs = [] @ w @ t" "seq_matches pattern w"
      by auto
    then show ?thesis unfolding occurs_def by blast
  qed
qed

lemma re_search_complete: "occurs pattern s \<Longrightarrow> re_search pattern s \<noteq> None"
proof -
  have "seq_matches pattern w \<Longrightarrow> re_search pattern (b @ w @ a) \<noteq> None" for b w a
  proof (induction b)
    case Nil
    then show ?case using rmatch_complete [of pattern w a]
      by (cases "w @ a") (auto split: option.splits)
  next
    case (Cons c b)
    then show ?case by (auto split: option.splits)
  qed
  then show "occurs pattern s \<Longrightarrow> re_search pattern s \<noteq> None"
    by (auto simp add: occurs_def)
qed

lemma re_search_None_iff: "re_search pattern s = None \<longleftrightarrow> \<not> occurs pattern s"
proof (cases "re_search pattern s")
  case None
  then show ?thesis using re_search_complete [of pattern s] by auto
next
  case (Some g)
  then show ?thesis using re_search_sound [of pattern s g] by auto
qed

text \<open>The groups that a match returns are the texts of the groups in one of the ways in
  which the pattern matches.\<close>

lemma rmatch_captures:
  "rmatch pattern s = Some groups \<Longrightarrow> \<exists>w t. s = w @ t \<and> seq_captures pattern w groups"
proof (induction pattern arbitrary: s groups)
  case Nil
  then show ?case by simp
next
  case (Cons it rest)
  let ?n = "length (takeWhile (atom_ok (item_atom it)) s)"
  from Cons.prems obtain k where k: "k \<in> set (cands (item_quant it) ?n)"
    and r: "(case rmatch rest (drop k s) of None \<Rightarrow> None
             | Some groups \<Rightarrow> Some (captured it (take k s) @ groups)) = Some groups"
    by (auto dest: first_some_Some)
  from r obtain g where g: "rmatch rest (drop k s) = Some g"
    and groups: "groups = captured it (take k s) @ g"
    by (auto split: option.splits)
  from Cons.IH [OF g] obtain w t where wt: "drop k s = w @ t" "seq_captures rest w g" by blast
  from k have kn: "k \<le> ?n" and q: "quant_ok (item_quant it) k" by (simp_all add: set_cands)
  have kl: "k \<le> length s" using kn by (meson le_trans length_takeWhile_le)
  have m: "item_matches it (take k s)"
    using take_run [OF kn] q kl by (simp add: item_matches_def min_def)
  have s: "s = (take k s @ w) @ t" using wt(1) by (metis append.assoc append_take_drop_id)
  have "seq_captures (it # rest) (take k s @ w) groups"
    using m wt(2) groups by auto
  with s show ?case by blast
qed

lemma re_search_captures: "re_search pattern s = Some groups \<Longrightarrow> captures pattern s groups"
proof (induction s)
  case Nil
  then show ?case using rmatch_captures [of pattern "[]" groups] by (auto simp add: captures_def)
next
  case (Cons c cs)
  show ?case
  proof (cases "rmatch pattern (c # cs)")
    case None
    with Cons have "captures pattern cs groups" by simp
    then obtain b w a where "cs = b @ w @ a" "seq_captures pattern w groups"
      by (auto simp add: captures_def)
    then have "c # cs = (c # b) @ w @ a \<and> seq_captures pattern w groups" by simp
    then show ?thesis unfolding captures_def by blast
  next
    case (Some g)
    with Cons.prems have "g = groups" by simp
    with Some rmatch_captures [of pattern "c # cs" groups]
    obtain w t where "c # cs = [] @ w @ t" "seq_captures pattern w groups" by auto
    then show ?thesis unfolding captures_def by blast
  qed
qed

text \<open>A match returns one text for each capturing group of the pattern.\<close>

lemma rmatch_groups: "rmatch pattern s = Some groups \<Longrightarrow> length groups = group_count pattern"
proof (induction pattern arbitrary: s groups)
  case Nil
  then show ?case by simp
next
  case (Cons it rest)
  from Cons.prems obtain k g where "rmatch rest (drop k s) = Some g"
    "groups = captured it (take k s) @ g"
    by (auto dest!: first_some_Some split: option.splits)
  then show ?case using Cons.IH by (cases it) auto
qed

lemma re_search_groups:
  "re_search pattern s = Some groups \<Longrightarrow> length groups = group_count pattern"
  by (induction s) (auto split: option.splits dest: rmatch_groups)

lemma regex_search_cases:
  "regex_search failure pattern s = Inl failure \<or>
   (\<exists>groups. regex_search failure pattern s = Inr groups \<and> length groups = group_count pattern)"
  by (cases "re_search pattern s") (auto simp add: regex_search_def dest: re_search_groups)

lemma item_matches_One: "item_matches (Tok a One) u \<longleftrightarrow> (\<exists>c. u = [c] \<and> atom_ok a c)"
  by (cases u) (auto simp add: item_matches_def)

lemma item_matches_Opt:
  "item_matches (Tok a Opt) u \<longleftrightarrow> (u = [] \<or> (\<exists>c. u = [c] \<and> atom_ok a c))"
  by (cases u) (auto simp add: item_matches_def)

lemma item_matches_Plus:
  "item_matches (Grp a Plus) u \<longleftrightarrow> (u \<noteq> [] \<and> list_all (atom_ok a) u)"
  by (cases u) (auto simp add: item_matches_def)

lemma seq_matches_lits:
  "seq_matches (lits m @ rest) w \<longleftrightarrow> (\<exists>v. w = m @ v \<and> seq_matches rest v)"
proof (induction m arbitrary: w)
  case Nil
  then show ?case by (simp add: lits_def)
next
  case (Cons c m)
  have "seq_matches (lits (c # m) @ rest) w
        \<longleftrightarrow> (\<exists>u v. w = u @ v \<and> u = [c] \<and> seq_matches (lits m @ rest) v)"
    by (auto simp add: lits_def item_matches_One)
  also have "\<dots> \<longleftrightarrow> (\<exists>v. w = (c # m) @ v \<and> seq_matches rest v)"
    using Cons.IH by auto
  finally show ?case .
qed

lemma seq_matches_lits_end: "seq_matches (lits m) w \<longleftrightarrow> w = m"
  using seq_matches_lits [of m "[]" w] by simp

lemma item_matches_Star: "item_matches (Tok a Star) u \<longleftrightarrow> list_all (atom_ok a) u"
  by (simp add: item_matches_def)

lemma item_matches_Grp_Star: "item_matches (Grp a Star) u \<longleftrightarrow> list_all (atom_ok a) u"
  by (simp add: item_matches_def)

lemma item_matches_Tok_Plus:
  "item_matches (Tok a Plus) u \<longleftrightarrow> (u \<noteq> [] \<and> list_all (atom_ok a) u)"
  by (cases u) (auto simp add: item_matches_def)

lemma seq_captures_lits:
  "seq_captures (lits m @ rest) w groups \<longleftrightarrow> (\<exists>v. w = m @ v \<and> seq_captures rest v groups)"
proof (induction m arbitrary: w)
  case Nil
  then show ?case by (simp add: lits_def)
next
  case (Cons c m)
  have "seq_captures (lits (c # m) @ rest) w groups
        \<longleftrightarrow> (\<exists>u v. w = u @ v \<and> u = [c] \<and> seq_captures (lits m @ rest) v groups)"
    by (auto simp add: lits_def item_matches_One)
  also have "\<dots> \<longleftrightarrow> (\<exists>v. w = (c # m) @ v \<and> seq_captures rest v groups)"
    using Cons.IH by auto
  finally show ?case .
qed

lemma seq_captures_lits_end: "seq_captures (lits m) w groups \<longleftrightarrow> w = m \<and> groups = []"
  using seq_captures_lits [of m "[]" w groups] by auto

lemma seq_captures_append:
  "seq_captures p1 w1 g1 \<Longrightarrow> seq_captures p2 w2 g2 \<Longrightarrow>
   seq_captures (p1 @ p2) (w1 @ w2) (g1 @ g2)"
proof (induction p1 arbitrary: w1 g1)
  case Nil
  then show ?case by simp
next
  case (Cons it rest)
  from Cons.prems(1) obtain u v more where uv: "w1 = u @ v" "item_matches it u"
    "seq_captures rest v more" "g1 = captured it u @ more"
    by auto
  have "seq_captures (rest @ p2) (v @ w2) (more @ g2)"
    using Cons.IH [OF uv(3) Cons.prems(2)] .
  then have "seq_captures (it # rest @ p2) (u @ v @ w2) (captured it u @ more @ g2)"
    using uv(2) by (simp only: seq_captures.simps) blast
  then show ?case using uv(1,4) by simp
qed

lemma seq_captures_single: "item_matches it u \<Longrightarrow> seq_captures [it] u (captured it u)"
  by simp

lemma seq_captures_lits_self: "seq_captures (lits m) m []"
  by (simp add: seq_captures_lits_end)

lemma dot_class: "atom_ok Dot = (\<lambda>c. c \<noteq> CHR 0x0A)"
  by (rule ext) simp

lemma group_count_lits [simp]: "group_count (lits m @ rest) = group_count rest"
  by (induction m) (simp_all add: lits_def)

lemma group_count_lits_end [simp]: "group_count (lits m) = 0"
  using group_count_lits [of m "[]"] by simp

section \<open>The entry point\<close>

lemma in_range_same: "in_range a a c \<longleftrightarrow> c = a"
  by (auto simp add: in_range_def)

lemma ident_class:
  "atom_ok (OneOf [(CHR ''a'', CHR ''z''), (CHR ''A'', CHR ''Z''), (CHR ''0'', CHR ''9''),
                   (CHR ''$'', CHR ''$'')]) = is_ident_char"
  by (rule ext) (simp add: is_ident_char_def in_range_same)

text \<open>The pattern of \<^verbatim>\<open>get_initial_function_name\<close> matches the marker and nothing else.\<close>

lemma seq_matches_initial:
  "seq_matches initial_function_pattern w \<longleftrightarrow>
     (\<exists>sp name. w = signature_marker @ sp @ name @ ''('' \<and>
        (sp = [] \<or> (\<exists>c. sp = [c] \<and> is_space c)) \<and>
        name \<noteq> [] \<and> list_all is_ident_char name)"
  (is "?L \<longleftrightarrow> ?R")
proof -
  let ?cls = "OneOf [(CHR ''a'', CHR ''z''), (CHR ''A'', CHR ''Z''), (CHR ''0'', CHR ''9''),
                     (CHR ''$'', CHR ''$'')]"
  have unfold: "?L \<longleftrightarrow>
        (\<exists>v. w = signature_marker @ v \<and>
           (\<exists>sp v'. v = sp @ v' \<and> item_matches (Tok Space Opt) sp \<and>
              (\<exists>name v''. v' = name @ v'' \<and> item_matches (Grp ?cls Plus) name \<and>
                 v'' = ''('')))"
    unfolding initial_function_pattern_def signature_marker_def [symmetric]
    by (simp only: seq_matches_lits append.simps seq_matches.simps seq_matches_lits_end)
  show ?thesis
  proof
    assume ?L
    then obtain sp name where w: "w = signature_marker @ sp @ name @ ''(''"
      and sp: "item_matches (Tok Space Opt) sp" and name: "item_matches (Grp ?cls Plus) name"
      unfolding unfold by blast
    from sp have "sp = [] \<or> (\<exists>c. sp = [c] \<and> is_space c)" by (simp add: item_matches_Opt)
    moreover from name have "name \<noteq> [] \<and> list_all is_ident_char name"
      by (simp add: item_matches_Plus ident_class)
    ultimately show ?R using w by blast
  next
    assume ?R
    then obtain sp name where w: "w = signature_marker @ sp @ name @ ''(''"
      and sp: "sp = [] \<or> (\<exists>c. sp = [c] \<and> is_space c)"
      and name: "name \<noteq> []" "list_all is_ident_char name"
      by blast
    from sp have 1: "item_matches (Tok Space Opt) sp" by (simp add: item_matches_Opt)
    from name have 2: "item_matches (Grp ?cls Plus) name"
      by (simp add: item_matches_Plus ident_class)
    show ?L unfolding unfold using w 1 2 by blast
  qed
qed

lemma occurs_initial: "occurs initial_function_pattern js \<longleftrightarrow> has_entry_marker js"
proof
  assume "occurs initial_function_pattern js"
  then obtain before w after sp name where "js = before @ w @ after"
    and "w = signature_marker @ sp @ name @ ''(''"
    and c: "sp = [] \<or> (\<exists>c. sp = [c] \<and> is_space c)" "name \<noteq> []"
      "list_all is_ident_char name"
    unfolding occurs_def seq_matches_initial by blast
  then have "js = before @ signature_marker @ sp @ name @ ''('' @ after" by simp
  with c show "has_entry_marker js" unfolding has_entry_marker_def by blast
next
  assume "has_entry_marker js"
  then obtain before sp name after
    where js: "js = before @ signature_marker @ sp @ name @ ''('' @ after"
    and c: "sp = [] \<or> (\<exists>c. sp = [c] \<and> is_space c)" "name \<noteq> []"
      "list_all is_ident_char name"
    unfolding has_entry_marker_def by blast
  from c have "seq_matches initial_function_pattern (signature_marker @ sp @ name @ ''('')"
    unfolding seq_matches_initial by blast
  moreover from js have "js = before @ (signature_marker @ sp @ name @ ''('') @ after" by simp
  ultimately show "occurs initial_function_pattern js" unfolding occurs_def by blast
qed

lemma group_count_initial: "group_count initial_function_pattern = 1"
  by (simp add: initial_function_pattern_def)

lemma entry_point_search:
  "re_search initial_function_pattern js = None \<longleftrightarrow> \<not> has_entry_marker js"
  by (simp add: re_search_None_iff occurs_initial)

text \<open>
  Claim C7: for every script in which the entry-point marker is absent,
  \<^verbatim>\<open>get_initial_function_name\<close> fails with \<^verbatim>\<open>PatternNotFound("entry_point")\<close>, and with no
  other error.
\<close>

theorem entry_point_missing:
  assumes "\<not> has_entry_marker js"
  shows "get_initial_function_name js = Inl (PatternNotFound ''entry_point'')"
proof -
  have "re_search initial_function_pattern js = None"
    using assms by (simp add: entry_point_search)
  then show ?thesis by (simp add: get_initial_function_name_def regex_search_def and_then_def)
qed

lemma no_quote_no_marker: "CHR 0x22 \<notin> set js \<Longrightarrow> \<not> has_entry_marker js"
  by (auto simp add: has_entry_marker_def signature_marker_def)

theorem entry_point_missing_witness:
  "get_initial_function_name ''EE=function(a){return a}'' = Inl (PatternNotFound ''entry_point'')"
  using entry_point_missing [of "''EE=function(a){return a}''"]
    no_quote_no_marker [of "''EE=function(a){return a}''"]
  by simp

text \<open>Where the marker is present, the function returns a name: the failure of the claim
  is the only one, and it happens in no other script.\<close>

lemma entry_marker_found:
  assumes "has_entry_marker js"
  shows "\<exists>name. get_initial_function_name js = Inr name"
proof -
  from assms have "occurs initial_function_pattern js" by (simp add: occurs_initial)
  then obtain g where g: "re_search initial_function_pattern js = Some g"
    using re_search_complete by blast
  then have "length g = 1" using re_search_groups [of initial_function_pattern js g]
    by (simp add: group_count_initial)
  with g show ?thesis
    by (simp add: get_initial_function_name_def regex_search_def and_then_def)
qed

text \<open>The white space of the marker is the one of \<^verbatim>\<open>\s\<close> in a \<^verbatim>\<open>str\<close> pattern: the unit
  separator \<^verbatim>\<open>0x1F\<close> before the identifier is accepted.\<close>

lemma entry_point_after_unit_separator:
  "get_initial_function_name
     (CHR 0x22 # ''signature'' @ [CHR 0x22, CHR '','', CHR 0x1F] @ ''EE(c)'') = Inr ''EE''"
  by code_simp

lemma get_initial_function_name_cases:
  "get_initial_function_name js = Inl (PatternNotFound ''entry_point'') \<or>
   (\<exists>name. get_initial_function_name js = Inr name)"
  using regex_search_cases [of "PatternNotFound ''entry_point''" initial_function_pattern js]
  by (auto simp add: get_initial_function_name_def and_then_def group_count_initial)

section \<open>The transform plan\<close>

lemma split_from_nonempty: "split_from sep cur s \<noteq> []"
  by (induction sep cur s rule: split_from.induct) auto

lemma join_Cons: "ys \<noteq> [] \<Longrightarrow> join sep (x # ys) = x @ sep @ join sep ys"
  by (cases ys) simp_all

text \<open>Joining the pieces with the separator gives the string back.\<close>

lemma join_split_from: "join sep (split_from sep cur s) = rev cur @ s"
proof (induction sep cur s rule: split_from.induct)
  case (1 sep cur)
  then show ?case by simp
next
  case (2 sep cur c cs)
  show ?case
  proof (cases "sep \<noteq> [] \<and> take (length sep) (c # cs) = sep")
    case True
    then have "join sep (split_from sep cur (c # cs)) =
               rev cur @ sep @ join sep (split_from sep [] (drop (length sep) (c # cs)))"
      by (simp add: join_Cons split_from_nonempty del: drop_Suc_Cons take_Suc_Cons)
    also have "\<dots> = rev cur @ take (length sep) (c # cs) @ drop (length sep) (c # cs)"
      using True 2 by simp
    finally show ?thesis by (simp only: append_take_drop_id)
  next
    case False
    then have "split_from sep cur (c # cs) = split_from sep (c # cur) cs" by auto
    with False 2 show ?thesis by simp
  qed
qed

lemma join_split: "join sep (split sep s) = s"
  by (simp add: split_def join_split_from)

lemma split_from_char_pieces:
  "c \<notin> set cur \<Longrightarrow> list_all (\<lambda>piece. c \<notin> set piece) (split_from [c] cur s)"
proof (induction "[c]" cur s rule: split_from.induct)
  case (1 cur)
  then show ?case by simp
next
  case (2 cur d ds)
  then show ?case by (cases "d = c") auto
qed

lemma split_char_pieces: "list_all (\<lambda>piece. c \<notin> set piece) (split [c] s)"
  by (simp add: split_def split_from_char_pieces)

lemma group_count_plan: "group_count (transform_plan_pattern name) = 1"
  by (simp add: transform_plan_pattern_def)

lemma prefix_class:
  "atom_ok (OneOf [(CHR ''a'', CHR ''z''), (CHR ''='', CHR ''=''), (CHR ''.'', CHR ''.''),
                   (CHR ''('', CHR ''(''), (CHR 0x22, CHR 0x22), (CHR '')'', CHR '')'')])
   = plan_prefix_char"
  by (rule ext) (simp add: plan_prefix_char_def in_range_same)

text \<open>
  What the pattern of \<^verbatim>\<open>get_transform_plan\<close> captures: the statement between the first
  semicolon of the body, after a housekeeping prefix, and a last part \<open>tail\<close> that is not empty
  and ends the body; neither the statement nor the tail has a newline.
\<close>

lemma seq_captures_plan:
  "seq_captures (transform_plan_pattern name) w groups \<longleftrightarrow>
     (\<exists>p pre statement tail.
        w = name @ ''=function('' @ [p] @ ''){'' @ pre @ '';'' @ statement @ '';'' @ tail @ ''}'' \<and>
        groups = [statement] \<and> is_word p \<and> list_all plan_prefix_char pre \<and>
        list_all (\<lambda>c. c \<noteq> CHR 0x0A) statement \<and>
        tail \<noteq> [] \<and> list_all (\<lambda>c. c \<noteq> CHR 0x0A) tail)"
  (is "?L \<longleftrightarrow> ?R")
proof -
  let ?cls = "OneOf [(CHR ''a'', CHR ''z''), (CHR ''='', CHR ''=''), (CHR ''.'', CHR ''.''),
                   (CHR ''('', CHR ''(''), (CHR 0x22, CHR 0x22), (CHR '')'', CHR '')'')]"
  have unfold: "?L \<longleftrightarrow>
    (\<exists>v1. w = name @ v1 \<and> (\<exists>v2. v1 = ''=function('' @ v2 \<and>
      (\<exists>u3 v3 m3. v2 = u3 @ v3 \<and> item_matches (Tok Word One) u3 \<and>
        (\<exists>v4. v3 = ''){'' @ v4 \<and>
          (\<exists>u5 v5 m5. v4 = u5 @ v5 \<and> item_matches (Tok ?cls Star) u5 \<and>
            (\<exists>v6. v5 = '';'' @ v6 \<and>
              (\<exists>u7 v7 m7. v6 = u7 @ v7 \<and> item_matches (Grp Dot Star) u7 \<and>
                (\<exists>v8. v7 = '';'' @ v8 \<and>
                  (\<exists>u9 v9 m9. v8 = u9 @ v9 \<and> item_matches (Tok Dot Plus) u9 \<and>
                     (v9 = ''}'' \<and> m9 = []) \<and> m7 = captured (Tok Dot Plus) u9 @ m9)) \<and>
                 m5 = captured (Grp Dot Star) u7 @ m7)) \<and>
             m3 = captured (Tok ?cls Star) u5 @ m5)) \<and>
         groups = captured (Tok Word One) u3 @ m3)))"
    unfolding transform_plan_pattern_def
    by (simp only: seq_captures_lits append.simps seq_captures.simps seq_captures_lits_end)
  show ?thesis
  proof
    assume ?L
    then obtain p3 pre statement tail where
      w: "w = name @ ''=function('' @ p3 @ ''){'' @ pre @ '';'' @ statement @ '';'' @ tail @ ''}''"
      and g: "groups = [statement]"
      and m: "item_matches (Tok Word One) p3" "item_matches (Tok ?cls Star) pre"
        "item_matches (Grp Dot Star) statement" "item_matches (Tok Dot Plus) tail"
      unfolding unfold by auto
    from m(1) obtain p where p: "p3 = [p]" "is_word p" by (auto simp add: item_matches_One)
    from m(2) have "list_all plan_prefix_char pre" by (simp add: item_matches_Star prefix_class)
    moreover from m(3) have "list_all (\<lambda>c. c \<noteq> CHR 0x0A) statement"
      by (simp add: item_matches_Grp_Star dot_class)
    moreover from m(4) have "tail \<noteq> [] \<and> list_all (\<lambda>c. c \<noteq> CHR 0x0A) tail"
      by (simp add: item_matches_Tok_Plus dot_class)
    ultimately show ?R using w g p by blast
  next
    assume ?R
    then obtain p pre statement tail where
      w: "w = name @ ''=function('' @ [p] @ ''){'' @ pre @ '';'' @ statement @ '';'' @ tail @ ''}''"
      and g: "groups = [statement]"
      and c: "is_word p" "list_all plan_prefix_char pre"
        "list_all (\<lambda>c. c \<noteq> CHR 0x0A) statement" "tail \<noteq> []"
        "list_all (\<lambda>c. c \<noteq> CHR 0x0A) tail"
      by blast
    have m: "item_matches (Tok Word One) [p]" "item_matches (Tok ?cls Star) pre"
        "item_matches (Grp Dot Star) statement" "item_matches (Tok Dot Plus) tail"
      using c by (simp_all add: item_matches_One item_matches_Star prefix_class
          item_matches_Grp_Star item_matches_Tok_Plus dot_class)
    have "seq_captures (transform_plan_pattern name)
            (name @ ''=function('' @ [p] @ ''){'' @ pre @ '';'' @ statement @ '';'' @ tail @ ''}'')
            ([] @ [] @ captured (Tok Word One) [p] @ [] @ captured (Tok ?cls Star) pre @ [] @
             captured (Grp Dot Star) statement @ [] @ captured (Tok Dot Plus) tail @ [])"
      unfolding transform_plan_pattern_def
      by (intro seq_captures_append seq_captures_lits_self seq_captures_single m)
    then show ?L using w g by simp
  qed
qed

text \<open>
  Claim C9: \<^verbatim>\<open>get_transform_plan\<close> never returns an empty plan; it fails with a format-drift
  error or returns a non-empty sequence of call expressions, and an empty extraction
  result is treated as a failure, not returned.

  The function has no such check. For the script \<^verbatim>\<open>"signature",E(E=function(a){;;x}\<close> the
  captured statement is empty and the function returns the plan that holds the empty
  string alone, which is no call expression: \<^verbatim>\<open>parse_function\<close> fails on it.
\<close>

theorem transform_plan_empty_statement_returned:
  "get_transform_plan script_empty_statement = Inr [[]] \<and>
   parse_function [] = Inl (MalformedCall [])"
  by code_simp

text \<open>The decoding of that script then stops in \<^verbatim>\<open>var, _ = tplan[0].split('.')\<close>, with an
  error that is not one of the specification.\<close>

lemma empty_statement_decode:
  "get_signature script_empty_statement ''abcdef'' = Inl ValueError"
  by code_simp

text \<open>
  Claim C9, amended: for every script \<^verbatim>\<open>get_transform_plan\<close> fails with
  \<^verbatim>\<open>PatternNotFound("entry_point")\<close> when the marker is absent, fails with
  \<^verbatim>\<open>PatternNotFound("transform_plan")\<close> when the pattern of the plan does not occur, and
  otherwise returns the pieces into which \<^verbatim>\<open>split(';')\<close> cuts the statement that the pattern
  captures: a sequence that is not empty, whose elements have no semicolon and, joined
  with semicolons, give the statement back.
\<close>

theorem transform_plan_pieces:
  "(\<not> has_entry_marker js \<and> get_transform_plan js = Inl (PatternNotFound ''entry_point'')) \<or>
   (\<exists>name. get_initial_function_name js = Inr name \<and>
      \<not> occurs (transform_plan_pattern name) js \<and>
      get_transform_plan js = Inl (PatternNotFound ''transform_plan'')) \<or>
   (\<exists>name statement plan. get_initial_function_name js = Inr name \<and>
      captures (transform_plan_pattern name) js [statement] \<and>
      get_transform_plan js = Inr plan \<and> plan \<noteq> [] \<and> join '';'' plan = statement \<and>
      list_all (\<lambda>piece. CHR '';'' \<notin> set piece) plan)"
proof (cases "re_search initial_function_pattern js")
  case None
  then have "\<not> has_entry_marker js" by (simp add: entry_point_search)
  moreover from None have "get_transform_plan js = Inl (PatternNotFound ''entry_point'')"
    by (simp add: get_transform_plan_def get_initial_function_name_def regex_search_def
        and_then_def)
  ultimately show ?thesis by blast
next
  case (Some g)
  then have "length g = 1" using re_search_groups [of initial_function_pattern js g]
    by (simp add: group_count_initial)
  then obtain name where g: "g = [name]" by (cases g) auto
  have name: "get_initial_function_name js = Inr name"
    using Some g by (simp add: get_initial_function_name_def regex_search_def and_then_def)
  show ?thesis
  proof (cases "re_search (transform_plan_pattern name) js")
    case None
    then have "\<not> occurs (transform_plan_pattern name) js" by (simp add: re_search_None_iff)
    moreover from None have "get_transform_plan js = Inl (PatternNotFound ''transform_plan'')"
      by (simp add: get_transform_plan_def name regex_search_def and_then_def)
    ultimately show ?thesis using name by blast
  next
    case (Some h)
    then have "length h = 1" using re_search_groups [of "transform_plan_pattern name" js h]
      by (simp add: group_count_plan)
    then obtain statement where h: "h = [statement]" by (cases h) auto
    have c: "captures (transform_plan_pattern name) js [statement]"
      using Some h re_search_captures by blast
    have p: "get_transform_plan js = Inr (split '';'' statement)"
      using Some h by (simp add: get_transform_plan_def name regex_search_def and_then_def)
    have "split '';'' statement \<noteq> []" by (simp add: split_def split_from_nonempty)
    moreover have "join '';'' (split '';'' statement) = statement" by (rule join_split)
    moreover have "list_all (\<lambda>piece. CHR '';'' \<notin> set piece) (split '';'' statement)"
      by (rule split_char_pieces)
    ultimately show ?thesis using name c p by blast
  qed
qed

section \<open>The operation table\<close>

text \<open>
  Claim C8: for every definition whose body matches none of the three shapes,
  \<^verbatim>\<open>map_functions\<close> returns no function and fails with the error that carries the text
  of the definition; the error is \<^verbatim>\<open>RegexMatchError\<close> with that text as its second argument.
\<close>

theorem map_functions_unknown_shape:
  assumes "\<not> occurs reverse_pattern js_func" and "\<not> occurs splice_pattern js_func"
    and "\<not> occurs swap_pattern js_func"
  shows "map_functions js_func =
         Inl (RegexMatchError ''could not find python equivalent function for: '' js_func)"
  using assms by (simp add: map_functions_def mapper_def re_search_None_iff)

theorem map_functions_unknown_shape_witness:
  "map_functions ''function(a){a.sort()}'' =
   Inl (RegexMatchError ''could not find python equivalent function for: ''
          ''function(a){a.sort()}'')"
proof -
  have 1: "re_search reverse_pattern ''function(a){a.sort()}'' = None" by code_simp
  have 2: "re_search splice_pattern ''function(a){a.sort()}'' = None" by code_simp
  have 3: "re_search swap_pattern ''function(a){a.sort()}'' = None" by code_simp
  show ?thesis
    by (rule map_functions_unknown_shape [OF 1 [unfolded re_search_None_iff]
          2 [unfolded re_search_None_iff] 3 [unfolded re_search_None_iff]])
qed

text \<open>The classes \<^verbatim>\<open>\w\<close> and \<^verbatim>\<open>\s\<close> of the patterns are those of \<^verbatim>\<open>str\<close> patterns: a parameter
  named \<^verbatim>\<open>0xE9\<close> (e with acute accent) and the unit separator \<^verbatim>\<open>0x1F\<close> after \<^verbatim>\<open>var\<close> are
  accepted.\<close>

lemma map_functions_latin_letter:
  "map_functions (''function('' @ [CHR 0xE9] @ ''){'' @ [CHR 0xE9] @ ''.reverse()}'') = Inr Reverse"
  by code_simp

lemma map_functions_unit_separator:
  "map_functions (''function(a,b){var'' @ [CHR 0x1F] @ ''c=a[0];a[0]=a[b%a.length];a[b]=c}'')
   = Inr Swap"
  by code_simp

text \<open>The patterns are tried in the order of \<^verbatim>\<open>mapper\<close>, and a function is returned only
  for a definition in which its pattern occurs.\<close>

lemma map_functions_known_shape:
  "map_functions js_func = Inr fn \<Longrightarrow>
   (fn = Reverse \<and> occurs reverse_pattern js_func) \<or>
   (fn = Splice \<and> occurs splice_pattern js_func \<and> \<not> occurs reverse_pattern js_func) \<or>
   (fn = Swap \<and> occurs swap_pattern js_func \<and> \<not> occurs reverse_pattern js_func
      \<and> \<not> occurs splice_pattern js_func)"
  by (auto simp add: map_functions_def mapper_def re_search_None_iff [symmetric]
      split: if_splits dest: re_search_sound)

section \<open>Decoding\<close>

text \<open>
  Claim C2: for the script asset with the entry point \<^verbatim>\<open>EE\<close>, the plan \<^verbatim>\<open>DE.AJ(a,0)\<close>
  (reverse) then \<^verbatim>\<open>DE.VR(a,2)\<close> (splice), and the ciphered input \<^verbatim>\<open>abcdef\<close>,
  \<^verbatim>\<open>get_signature\<close> returns \<^verbatim>\<open>dcba\<close>.

  The reversal gives \<^verbatim>\<open>fedcba\<close>; \<^verbatim>\<open>splice\<close> with \<open>2\<close> then keeps \<^verbatim>\<open>fe\<close> and \<^verbatim>\<open>ba\<close>, and the
  function returns \<^verbatim>\<open>feba\<close>.
\<close>

theorem get_signature_reverse_splice:
  "get_signature script_reverse_splice ''abcdef'' = Inr ''feba''"
  by code_simp






end
